theory Spec2Isabelle
  imports Complex_Main "HOL-Library.Multiset"
begin

section \<open>Strings\<close>

text \<open>
  Python strings are modelled as \<open>string\<close> (lists of 8-bit characters), so the model
  speaks about ASCII text. \<open>isspace\<close> lists the ASCII characters for which Python's
  \<open>str.isspace\<close> is true: tab, line feed, vertical tab, form feed, carriage return, the
  four separators \<open>0x1C\<close> to \<open>0x1F\<close>, and the space.
\<close>

definition isspace :: "char \<Rightarrow> bool" where
  "isspace c \<longleftrightarrow>
     c \<in> set [CHR 0x09, CHR 0x0A, CHR 0x0B, CHR 0x0C, CHR 0x0D,
              CHR 0x1C, CHR 0x1D, CHR 0x1E, CHR 0x1F, CHR 0x20]"

text \<open>\<open>s.strip()\<close>: leading and trailing whitespace removed.\<close>

definition strip :: "string \<Rightarrow> string" where
  "strip s = rev (dropWhile isspace (rev (dropWhile isspace s)))"

text \<open>\<open>sep.join(xs)\<close>.\<close>

fun join :: "string \<Rightarrow> string list \<Rightarrow> string" where
  "join sep [] = []"
| "join sep [x] = x"
| "join sep (x # y # ys) = x @ sep @ join sep (y # ys)"

section \<open>Segments\<close>

text \<open>
  The dataclass \<open>Segment\<close>. The fields \<open>end\<close> and \<open>text\<close> are named \<open>seg_end\<close> and
  \<open>seg_text\<close> here. Times are Python floats; the model takes them as real numbers.
\<close>

record segment =
  speaker :: string
  start :: real
  seg_end :: real
  seg_text :: string
  language :: string

text \<open>The constructor call \<open>Segment(speaker=.., start=.., end=.., text=..)\<close>, with the
  default \<open>language = ""\<close>.\<close>

definition Segment :: "string \<Rightarrow> real \<Rightarrow> real \<Rightarrow> string \<Rightarrow> segment" where
  "Segment spk st en tx =
     \<lparr>speaker = spk, start = st, seg_end = en, seg_text = tx, language = []\<rparr>"

section \<open>Merging the two channels\<close>

text \<open>
  \<open>merge_channels\<close>: concatenate, sort in place by \<open>start\<close> (Python's \<open>list.sort\<close> is
  stable, as is \<open>sort_key\<close>), then keep the segments whose stripped text is truthy,
  that is, non-empty.
\<close>

definition has_text :: "segment \<Rightarrow> bool" where
  "has_text s \<longleftrightarrow> strip (seg_text s) \<noteq> []"

definition merge_channels :: "segment list \<Rightarrow> segment list \<Rightarrow> segment list" where
  "merge_channels mic_segments sys_segments =
     (let all_segments = mic_segments @ sys_segments;
          all_segments = sort_key start all_segments;
          all_segments = filter has_text all_segments
      in all_segments)"

section \<open>Grouping word timestamps\<close>

text \<open>
  A word timestamp is a dict read with \<open>.get("word", "")\<close>, \<open>.get("start", 0.0)\<close> and
  \<open>.get("end", 0.0)\<close>: each of the three keys may be missing.
\<close>

record word_stamp =
  ws_word :: "string option"
  ws_start :: "real option"
  ws_end :: "real option"

definition get_word :: "word_stamp \<Rightarrow> string" where
  "get_word w = (case ws_word w of None \<Rightarrow> [] | Some x \<Rightarrow> x)"

definition get_start :: "word_stamp \<Rightarrow> real" where
  "get_start w = (case ws_start w of None \<Rightarrow> 0 | Some x \<Rightarrow> x)"

definition get_end :: "word_stamp \<Rightarrow> real" where
  "get_end w = (case ws_end w of None \<Rightarrow> 0 | Some x \<Rightarrow> x)"

text \<open>
  The \<open>for i, w in enumerate(word_stamps)\<close> loop of \<open>_group_words_into_segments\<close>, running
  over the words still to visit. The state is \<open>(segments, current_words, current_start)\<close>.
  The test \<open>i < len(word_stamps) - 1\<close> holds exactly when a next word exists, and
  \<open>word_stamps[i + 1]\<close> is that word.
\<close>

fun group_loop ::
  "real \<Rightarrow> word_stamp list \<Rightarrow> segment list \<times> string list \<times> real
     \<Rightarrow> segment list \<times> string list \<times> real" where
  "group_loop max_gap [] st = st"
| "group_loop max_gap [w] (segments, current_words, current_start) =
     (segments, current_words @ [get_word w], current_start)"
| "group_loop max_gap (w # nxt # rest) (segments, current_words, current_start) =
     (let current_words = current_words @ [get_word w];
          gap = get_start nxt - get_end w
      in if gap > max_gap
         then group_loop max_gap (nxt # rest)
                (segments @ [Segment [] current_start (get_end w)
                               (strip (join '' '' current_words))],
                 [], get_start nxt)
         else group_loop max_gap (nxt # rest) (segments, current_words, current_start))"

text \<open>\<open>_group_words_into_segments(word_stamps, max_gap)\<close>; the caller leaves \<open>max_gap\<close> at
  its default \<open>1.5\<close>.\<close>

definition group_words_into_segments :: "word_stamp list \<Rightarrow> real \<Rightarrow> segment list" where
  "group_words_into_segments word_stamps max_gap =
     (if word_stamps = [] then []
      else case group_loop max_gap word_stamps ([], [], get_start (hd word_stamps)) of
        (segments, current_words, current_start) \<Rightarrow>
          if current_words \<noteq> []
          then segments @ [Segment [] current_start (get_end (last word_stamps))
                             (strip (join '' '' current_words))]
          else segments)"

subsection \<open>The grouping as the specification words it\<close>

text \<open>
  The specification's reading, written independently of the loop: cut the word list
  between two consecutive words exactly where the gap exceeds the limit, and turn every
  group into one segment. \<open>no_pause\<close> and \<open>pauses_between\<close> say where the cuts are.
\<close>

fun split_at_pauses :: "real \<Rightarrow> word_stamp list \<Rightarrow> word_stamp list list" where
  "split_at_pauses g [] = []"
| "split_at_pauses g [w] = [[w]]"
| "split_at_pauses g (w # v # ws) =
     (if get_start v - get_end w > g then [w] # split_at_pauses g (v # ws)
      else case split_at_pauses g (v # ws) of
             [] \<Rightarrow> [[w]]
           | grp # grps \<Rightarrow> (w # grp) # grps)"

definition segment_of_words :: "word_stamp list \<Rightarrow> segment" where
  "segment_of_words grp =
     Segment [] (get_start (hd grp)) (get_end (last grp))
       (strip (join '' '' (map get_word grp)))"

fun no_pause :: "real \<Rightarrow> word_stamp list \<Rightarrow> bool" where
  "no_pause g (w # v # ws) \<longleftrightarrow> \<not> get_start v - get_end w > g \<and> no_pause g (v # ws)"
| "no_pause g _ \<longleftrightarrow> True"

fun pauses_between :: "real \<Rightarrow> word_stamp list list \<Rightarrow> bool" where
  "pauses_between g (a # b # gs) \<longleftrightarrow>
     get_start (hd b) - get_end (last a) > g \<and> pauses_between g (b # gs)"
| "pauses_between g _ \<longleftrightarrow> True"

definition finish_group :: "segment list \<times> string list \<times> real \<Rightarrow> real \<Rightarrow> segment list" where
  "finish_group st e = (case st of (segments, current_words, current_start) \<Rightarrow>
     if current_words \<noteq> []
     then segments @ [Segment [] current_start e (strip (join '' '' current_words))]
     else segments)"

section \<open>Exceptions\<close>

text \<open>
  The values of this type stand for raised instances of Python's \<open>Exception\<close> class, the
  ones an \<open>except Exception\<close> clause catches: \<open>OSError\<close> (a failed file operation),
  \<open>RuntimeError\<close> (an audio file that cannot be read), \<open>ZeroDivisionError\<close>, and any other
  exception with its message. A function that may raise returns \<open>exn + 'a\<close>.
\<close>

datatype exn = OSError | RuntimeError | ZeroDivisionError | OtherError string

section \<open>Echo suppression\<close>

text \<open>
  What \<open>sf.read\<close> returns: a one-dimensional array for a mono file, otherwise one row per
  frame with the first channel's sample and the samples of the further channels.
  Samples are \<open>float32\<close> in the source and real numbers here.
\<close>

datatype audio = Mono "real list" | Multi "(real \<times> real list) list"

text \<open>\<open>data[:, 0]\<close> when \<open>data.ndim > 1\<close>.\<close>

fun first_channel :: "audio \<Rightarrow> real list" where
  "first_channel (Mono xs) = xs"
| "first_channel (Multi rows) = map fst rows"

text \<open>\<open>int(mic_sr * 0.030)\<close>, with the product taken exactly.\<close>

definition frame_size_of :: "nat \<Rightarrow> nat" where
  "frame_size_of mic_sr = nat \<lfloor>real mic_sr * 0.030\<rfloor>"

text \<open>\<open>np.sqrt(np.mean(frame ** 2))\<close>, and the two loops filling \<open>mic_rms\<close> and \<open>sys_rms\<close>.\<close>

definition rms :: "real list \<Rightarrow> real" where
  "rms frame = sqrt (sum_list (map (\<lambda>x. x\<^sup>2) frame) / real (length frame))"

definition frame_rms :: "nat \<Rightarrow> nat \<Rightarrow> real list \<Rightarrow> real list" where
  "frame_rms frame_size num_frames data =
     map (\<lambda>i. rms (take frame_size (drop (i * frame_size) data))) [0..<num_frames]"

text \<open>\<open>np.median\<close>: the middle of the sorted values, or the mean of the two middle ones.\<close>

definition median :: "real list \<Rightarrow> real" where
  "median xs =
     (let s = sort xs; n = length s
      in if odd n then s ! (n div 2) else (s ! (n div 2 - 1) + s ! (n div 2)) / 2)"

text \<open>\<open>sys_median\<close> and \<open>sys_threshold\<close>.\<close>

definition sys_median_of :: "real list \<Rightarrow> real" where
  "sys_median_of sys_rms =
     (if \<exists>x \<in> set sys_rms. x > 0 then median (filter (\<lambda>x. x > 0) sys_rms) else 0.001)"

definition sys_threshold_of :: "real list \<Rightarrow> real" where
  "sys_threshold_of sys_rms = max (sys_median_of sys_rms * 0.5) 0.003"

text \<open>
  The decision taken for frame \<open>i\<close> inside the gating loop: \<open>Some attenuation\<close> when the
  frame is gated (both \<open>if\<close>s pass), \<open>None\<close> when it is left alone.
\<close>

definition frame_gain :: "real \<Rightarrow> real \<Rightarrow> real \<Rightarrow> real option" where
  "frame_gain sys_threshold mic_rms_i sys_rms_i =
     (if sys_rms_i > sys_threshold then
        (let ratio = sys_rms_i / max mic_rms_i (1 / 1000000)
         in if ratio > 0.3
            then (let attenuation = max 0.05 (1.0 - min (ratio * 0.8) 0.95)
                  in Some attenuation)
            else None)
      else None)"

text \<open>\<open>cleaned[start:end] *= attenuation\<close>.\<close>

definition scale_slice :: "nat \<Rightarrow> nat \<Rightarrow> real \<Rightarrow> real list \<Rightarrow> real list" where
  "scale_slice start_i end_i a xs =
     take start_i xs @ map (\<lambda>x. x * a) (take (end_i - start_i) (drop start_i xs)) @ drop end_i xs"

text \<open>One pass of the gating loop; the state is \<open>(cleaned, suppressed_frames)\<close>.\<close>

definition gate_frame ::
  "nat \<Rightarrow> real \<Rightarrow> real list \<Rightarrow> real list \<Rightarrow> nat \<Rightarrow> real list \<times> nat \<Rightarrow> real list \<times> nat" where
  "gate_frame frame_size sys_threshold mic_rms sys_rms i st =
     (case st of (cleaned, suppressed_frames) \<Rightarrow>
        (let start_i = i * frame_size; end_i = start_i + frame_size
         in case frame_gain sys_threshold (mic_rms ! i) (sys_rms ! i) of
              Some attenuation \<Rightarrow>
                (scale_slice start_i end_i attenuation cleaned, suppressed_frames + 1)
            | None \<Rightarrow> (cleaned, suppressed_frames)))"

text \<open>
  The signal processing of \<open>_remove_echo\<close>, from the two arrays read to the cleaned array
  and the count of suppressed frames. With a sample rate below 34 the frame size is 0
  and \<open>len(mic_data) // frame_size\<close> raises.
\<close>

definition remove_echo_samples :: "nat \<Rightarrow> audio \<Rightarrow> audio \<Rightarrow> exn + real list \<times> nat" where
  "remove_echo_samples mic_sr mic sys =
     (let mic_data = first_channel mic;
          sys_data = first_channel sys;
          min_len = min (length mic_data) (length sys_data);
          mic_data = take min_len mic_data;
          sys_data = take min_len sys_data;
          frame_size = frame_size_of mic_sr
      in if frame_size = 0 then Inl ZeroDivisionError
         else
           (let num_frames = length mic_data div frame_size;
                mic_rms = frame_rms frame_size num_frames mic_data;
                sys_rms = frame_rms frame_size num_frames sys_data;
                sys_threshold = sys_threshold_of sys_rms
            in Inr (fold (gate_frame frame_size sys_threshold mic_rms sys_rms)
                      [0..<num_frames] (mic_data, 0))))"

section \<open>Formatting\<close>

definition newline :: char where
  "newline = CHR 0x0A"

text \<open>\<open>str(n)\<close> for a natural number.\<close>

definition digit_char :: "nat \<Rightarrow> char" where
  "digit_char d = ''0123456789'' ! d"

fun decimal :: "nat \<Rightarrow> string" where
  "decimal n = (if n < 10 then [digit_char n] else decimal (n div 10) @ [digit_char (n mod 10)])"

declare decimal.simps [simp del]

text \<open>
  The format specification \<open>.1f\<close>: the exact value rounded to the nearest tenth, a tie
  going to the even digit, printed with a sign, the integer digits, a point and one digit.
\<close>

definition round_half_even :: "real \<Rightarrow> int" where
  "round_half_even x =
     (let f = \<lfloor>x\<rfloor>; d = x - of_int f
      in if d < 1/2 then f else if d > 1/2 then f + 1 else if even f then f else f + 1)"

definition format_1f :: "real \<Rightarrow> string" where
  "format_1f x =
     (let n = nat (round_half_even (\<bar>x\<bar> * 10))
      in (if x < 0 then ''-'' else []) @ decimal (n div 10) @ ''.'' @ decimal (n mod 10))"

text \<open>The body of the loop that fills \<open>lines\<close> in \<open>transcribe_meeting\<close>.\<close>

definition format_line :: "segment \<Rightarrow> string" where
  "format_line seg =
     (let timestamp = (if start seg > 0 then ''['' @ format_1f (start seg) @ ''s]'' else [])
      in ''**'' @ speaker seg @ ''** '' @ timestamp @ '': '' @ seg_text seg)"

section \<open>The transcript\<close>

text \<open>The dict returned by \<open>transcribe_meeting\<close>; \<open>asdict\<close> keeps the segments' fields.\<close>

record transcript =
  segments :: "segment list"
  full_text :: string
  plain_text :: string
  me_text :: string
  them_text :: string
  num_segments :: nat
  duration_seconds :: real
  processing_time :: real
  model_used :: string

text \<open>\<open>max(xs, default=d)\<close>.\<close>

fun max_default :: "real list \<Rightarrow> real \<Rightarrow> real" where
  "max_default [] d = d"
| "max_default (x # xs) d = fold max xs x"

text \<open>
  Lines 297 to 316 of \<open>transcribe_meeting\<close>: the formatted lines, their join, and the
  result dict, from the merged list, \<open>self.primary\<close> and the elapsed time.
\<close>

definition build_result :: "string \<Rightarrow> real \<Rightarrow> segment list \<Rightarrow> transcript" where
  "build_result primary_model elapsed_time merged =
     (let lines = fold (\<lambda>seg lines. lines @ [format_line seg]) merged [];
          full_text = join [newline] lines
      in \<lparr>segments = merged,
          full_text = full_text,
          plain_text = join '' '' (map seg_text merged),
          me_text = join '' '' (map seg_text (filter (\<lambda>s. speaker s = ''Me'') merged)),
          them_text = join '' '' (map seg_text (filter (\<lambda>s. speaker s = ''Them'') merged)),
          num_segments = length merged,
          duration_seconds = max_default (map seg_end merged) 0,
          processing_time = elapsed_time,
          model_used = primary_model\<rparr>)"

section \<open>Files, backends and the pipeline\<close>

text \<open>
  The world the pipeline acts on: the files on disk (an audio file, a text file, or a
  file left half-written by a failed write) and the log of the backend calls made so far.
\<close>

type_synonym path = string

datatype content = Wav nat audio | Text string | Partial

datatype backend = Parakeet | Whisper

record world =
  files :: "path \<rightharpoonup> content"
  calls :: "(backend \<times> path) list"

text \<open>
  What the model does not compute is a parameter: the configured \<open>primary_model\<close>, what
  \<open>_transcribe_parakeet\<close> and \<open>_transcribe_whisper\<close> return or raise on a path (loading the
  model included), the name \<open>tempfile.mktemp\<close> picks beside the microphone file, how a
  write to a path ends, whether \<open>os.unlink\<close> of a path fails, the elapsed time,
  \<open>Path.with_suffix\<close> and \<open>json.dump\<close>.
\<close>

datatype write_outcome = WriteOk | OpenFails | WriteFails

record env =
  primary :: string
  transcribe_parakeet :: "path \<Rightarrow> exn + segment list"
  transcribe_whisper :: "path \<Rightarrow> exn + segment list"
  mktemp :: "path \<Rightarrow> path"
  write_outcome_at :: "path \<Rightarrow> write_outcome"
  unlink_fails :: "path \<Rightarrow> bool"
  elapsed :: real
  with_suffix :: "path \<Rightarrow> string \<Rightarrow> path"
  json_dump :: "transcript \<Rightarrow> string"

text \<open>
  Writing a file: the open may fail and leave the disk as it is; a write that fails after
  the open has truncated the file leaves it half-written; otherwise the file holds the
  new content.
\<close>

definition write_file :: "env \<Rightarrow> world \<Rightarrow> path \<Rightarrow> content \<Rightarrow> world \<times> (exn + unit)" where
  "write_file E w p c =
     (case write_outcome_at E p of
        OpenFails \<Rightarrow> (w, Inl OSError)
      | WriteFails \<Rightarrow> (w\<lparr>files := (files w)(p \<mapsto> Partial)\<rparr>, Inl OSError)
      | WriteOk \<Rightarrow> (w\<lparr>files := (files w)(p \<mapsto> c)\<rparr>, Inr ()))"

text \<open>\<open>os.unlink\<close>: an \<open>OSError\<close> when the file is missing or cannot be removed.\<close>

definition unlink :: "env \<Rightarrow> world \<Rightarrow> path \<Rightarrow> world \<times> (exn + unit)" where
  "unlink E w p =
     (if unlink_fails E p \<or> files w p = None then (w, Inl OSError)
      else (w\<lparr>files := (files w)(p := None)\<rparr>, Inr ()))"

text \<open>
  \<open>_remove_echo\<close>: read both files, process the samples, write the cleaned signal to a
  new file at the microphone's sample rate, return its path.
\<close>

definition remove_echo :: "env \<Rightarrow> world \<Rightarrow> path \<Rightarrow> path \<Rightarrow> world \<times> (exn + path)" where
  "remove_echo E w mic_path sys_path =
     (case files w mic_path of
        Some (Wav mic_sr mic_data) \<Rightarrow>
          (case files w sys_path of
             Some (Wav sys_sr sys_data) \<Rightarrow>
               (case remove_echo_samples mic_sr mic_data sys_data of
                  Inl e \<Rightarrow> (w, Inl e)
                | Inr (cleaned, suppressed_frames) \<Rightarrow>
                    (let clean_path = mktemp E mic_path
                     in case write_file E w clean_path (Wav mic_sr (Mono cleaned)) of
                          (w', Inl e) \<Rightarrow> (w', Inl e)
                        | (w', Inr u) \<Rightarrow> (w', Inr clean_path)))
           | _ \<Rightarrow> (w, Inl RuntimeError))
      | _ \<Rightarrow> (w, Inl RuntimeError))"

text \<open>\<open>for seg in segments: seg.speaker = speaker\<close>.\<close>

definition tag_speaker :: "string \<Rightarrow> segment list \<Rightarrow> segment list" where
  "tag_speaker spk segs = map (\<lambda>seg. seg\<lparr>speaker := spk\<rparr>) segs"

definition call_backend :: "world \<Rightarrow> backend \<Rightarrow> path \<Rightarrow> world" where
  "call_backend w b p = w\<lparr>calls := calls w @ [(b, p)]\<rparr>"

text \<open>\<open>transcribe_channel\<close>, with its three branches on \<open>self.primary\<close>.\<close>

definition transcribe_channel ::
  "env \<Rightarrow> world \<Rightarrow> path \<Rightarrow> string \<Rightarrow> world \<times> (exn + segment list)" where
  "transcribe_channel E w audio_path spk =
     (if primary E = ''parakeet'' then
        (let w = call_backend w Parakeet audio_path
         in case transcribe_parakeet E audio_path of
              Inr segs \<Rightarrow> (w, Inr (tag_speaker spk segs))
            | Inl e \<Rightarrow>
                (let w = call_backend w Whisper audio_path
                 in case transcribe_whisper E audio_path of
                      Inr segs \<Rightarrow> (w, Inr (tag_speaker spk segs))
                    | Inl e' \<Rightarrow> (w, Inl e')))
      else if primary E = ''whisper'' then
        (let w = call_backend w Whisper audio_path
         in case transcribe_whisper E audio_path of
              Inr segs \<Rightarrow> (w, Inr (tag_speaker spk segs))
            | Inl e \<Rightarrow> (w, Inl e))
      else
        (let w = call_backend w Whisper audio_path
         in case transcribe_whisper E audio_path of
              Inr segs \<Rightarrow> (w, Inr (tag_speaker spk segs))
            | Inl e \<Rightarrow> (w, Inl e)))"

text \<open>
  \<open>transcribe_meeting\<close>. A failure of \<open>_remove_echo\<close> is caught and the raw microphone file
  is used. An exception of either \<open>transcribe_channel\<close> call leaves the function at once.
  The \<open>unlink\<close> after them is tried only when the cleaned path differs from the
  microphone path, and its \<open>OSError\<close> is swallowed.
\<close>

definition transcribe_meeting ::
  "env \<Rightarrow> world \<Rightarrow> path \<Rightarrow> path \<Rightarrow> world \<times> (exn + transcript)" where
  "transcribe_meeting E w mic_path sys_path =
     (case (case remove_echo E w mic_path sys_path of
              (w, Inr p) \<Rightarrow> (w, p)
            | (w, Inl e) \<Rightarrow> (w, mic_path)) of
        (w, clean_mic_path) \<Rightarrow>
     (case transcribe_channel E w clean_mic_path ''Me'' of
        (w, Inl e) \<Rightarrow> (w, Inl e)
      | (w, Inr mic_segments) \<Rightarrow>
     (case transcribe_channel E w sys_path ''Them'' of
        (w, Inl e) \<Rightarrow> (w, Inl e)
      | (w, Inr sys_segments) \<Rightarrow>
          (let w = (if clean_mic_path \<noteq> mic_path
                    then fst (unlink E w clean_mic_path) else w);
               merged = merge_channels mic_segments sys_segments
           in (w, Inr (build_result (primary E) (elapsed E) merged))))))"

section \<open>Saving the transcript\<close>

text \<open>The text the second \<open>with\<close> block of \<open>save_transcript\<close> writes.\<close>

definition markdown_of :: "transcript \<Rightarrow> string" where
  "markdown_of result =
     ''# Meeting Transcript'' @ [newline, newline]
     @ ''- Model: '' @ model_used result @ [newline]
     @ ''- Segments: '' @ decimal (num_segments result) @ [newline]
     @ ''- Processing time: '' @ format_1f (processing_time result) @ ''s'' @ [newline, newline]
     @ ''---'' @ [newline, newline]
     @ full_text result"

text \<open>\<open>save_transcript\<close>: the JSON file first, then the markdown file.\<close>

definition save_transcript ::
  "env \<Rightarrow> world \<Rightarrow> transcript \<Rightarrow> path \<Rightarrow> world \<times> (exn + unit)" where
  "save_transcript E w result output_path =
     (let json_path = with_suffix E output_path ''.json''
      in case write_file E w json_path (Text (json_dump E result)) of
           (w, Inl e) \<Rightarrow> (w, Inl e)
         | (w, Inr u) \<Rightarrow>
             (let md_path = with_suffix E output_path ''.md''
              in write_file E w md_path (Text (markdown_of result))))"

section \<open>Lines of a text\<close>

text \<open>
  The lines of a text, for the statements about line counts: the empty text has no line,
  any other text has the pieces between its line feeds.
\<close>

fun split_lines :: "string \<Rightarrow> string list" where
  "split_lines [] = [[]]"
| "split_lines (c # cs) =
     (if c = newline then [] # split_lines cs
      else case split_lines cs of [] \<Rightarrow> [[c]] | l # ls \<Rightarrow> (c # l) # ls)"

definition text_lines :: "string \<Rightarrow> string list" where
  "text_lines s = (if s = [] then [] else split_lines s)"

section \<open>Stub environments\<close>

text \<open>
  A concrete environment for running the model: the two backends are given as stubs,
  the temporary name is the microphone path with \<open>_clean.wav\<close> appended, every write and
  every unlink succeeds, \<open>with_suffix\<close> appends the suffix (for paths without one) and the
  JSON text is stood in for by the transcript's \<open>full_text\<close>.
\<close>

definition stub_env :: "string \<Rightarrow> (path \<Rightarrow> exn + segment list) \<Rightarrow> (path \<Rightarrow> exn + segment list) \<Rightarrow> env" where
  "stub_env prim pk wh =
     \<lparr>primary = prim, transcribe_parakeet = pk, transcribe_whisper = wh,
      mktemp = (\<lambda>p. p @ ''_clean.wav''), write_outcome_at = (\<lambda>p. WriteOk),
      unlink_fails = (\<lambda>p. False), elapsed = 1,
      with_suffix = (\<lambda>p s. p @ s), json_dump = full_text\<rparr>"

definition empty_world :: world where
  "empty_world = \<lparr>files = Map.empty, calls = []\<rparr>"

text \<open>
  Worlds and environments for the concrete runs below: a session directory with a
  microphone file and a silent system file; a whisper backend that raises on every
  path; a directory that already holds an older transcript pair; and an environment in
  which \<open>transcript.md\<close> cannot be opened for writing.
\<close>

definition silent_world :: world where
  "silent_world =
     \<lparr>files = [''mic.wav'' \<mapsto> Wav 100 (Mono [1, - 1, 1]),
               ''system.wav'' \<mapsto> Wav 100 (Mono [0, 0, 0])],
      calls = []\<rparr>"

definition whisper_down_env :: env where
  "whisper_down_env =
     stub_env ''whisper'' (\<lambda>p. Inr []) (\<lambda>p. Inl (OtherError ''out of memory''))"

definition saved_world :: world where
  "saved_world =
     \<lparr>files = [''transcript.json'' \<mapsto> Text ''old json'',
               ''transcript.md'' \<mapsto> Text ''old markdown''],
      calls = []\<rparr>"

definition md_locked_env :: env where
  "md_locked_env =
     (stub_env ''whisper'' (\<lambda>p. Inr []) (\<lambda>p. Inr []))
       \<lparr>write_outcome_at := (\<lambda>p. if p = ''transcript.md'' then OpenFails else WriteOk)\<rparr>"

section \<open>Properties of the merge\<close>

lemma strip_Nil: "strip [] = []"
  by (simp add: strip_def)

lemma merge_channels_eq:
  "merge_channels mic sys = filter has_text (sort_key start (mic @ sys))"
  by (simp add: merge_channels_def)

lemma set_merge_channels:
  "set (merge_channels mic sys) = {s \<in> set mic \<union> set sys. has_text s}"
  by (auto simp: merge_channels_eq)

text \<open>
  Claim C4. Every segment returned by \<open>merge_channels\<close> has a text that is still
  non-empty after stripping; with an empty self channel and the single remote segment
  \<open>(0, 1, "")\<close> the merged list is empty.
\<close>

theorem merge_channels_drops_blank_text:
  "(\<forall>s \<in> set (merge_channels mic sys). strip (seg_text s) \<noteq> [])
   \<and> merge_channels [] [Segment spk 0 1 []] = []"
  by (simp add: set_merge_channels has_text_def merge_channels_eq Segment_def strip_Nil)

theorem merge_channels_drops_blank_text_witness:
  "Segment ''Me'' 0 2 ''hello'' \<in> set (merge_channels [Segment ''Me'' 0 2 ''hello''] [Segment ''Them'' 1 3 '' ''])
   \<and> strip (seg_text (Segment ''Me'' 0 2 ''hello'')) \<noteq> []"
proof -
  have mem: "Segment ''Me'' 0 2 ''hello''
      \<in> set (merge_channels [Segment ''Me'' 0 2 ''hello''] [Segment ''Them'' 1 3 '' ''])"
    by (simp add: merge_channels_eq has_text_def Segment_def strip_def isspace_def)
  from merge_channels_drops_blank_text
    [of "[Segment ''Me'' 0 2 ''hello'']" "[Segment ''Them'' 1 3 '' '']"]
  have "\<forall>s \<in> set (merge_channels [Segment ''Me'' 0 2 ''hello''] [Segment ''Them'' 1 3 '' '']).
          strip (seg_text s) \<noteq> []"
    by (rule conjunct1)
  with mem show ?thesis by blast
qed

text \<open>
  Claim C1, as amended. \<open>merge_channels\<close> returns the stable ascending sort by \<open>start\<close> of
  the concatenation self-then-remote from which the segments with blank text have been
  removed: the result is sorted by \<open>start\<close>, it holds exactly the kept segments, and among
  the segments with one and the same \<open>start\<close> the kept self segments come first, in their
  original order, followed by the kept remote segments in theirs. Being a function of the
  two lists, the result is determined by them.
\<close>

theorem merge_channels_stable_sort_of_kept:
  "merge_channels mic sys = sort_key start (filter has_text mic @ filter has_text sys)
   \<and> sorted (map start (merge_channels mic sys))
   \<and> mset (merge_channels mic sys) = mset (filter has_text mic) + mset (filter has_text sys)
   \<and> (\<forall>k. filter (\<lambda>s. start s = k) (merge_channels mic sys)
          = filter (\<lambda>s. start s = k) (filter has_text mic)
            @ filter (\<lambda>s. start s = k) (filter has_text sys))"
proof -
  have eq: "merge_channels mic sys = sort_key start (filter has_text mic @ filter has_text sys)"
    by (simp add: merge_channels_eq filter_sort)
  have stab: "filter (\<lambda>s. start s = k) (merge_channels mic sys)
          = filter (\<lambda>s. start s = k) (filter has_text mic)
            @ filter (\<lambda>s. start s = k) (filter has_text sys)" for k
    unfolding eq by (simp only: sort_key_stable filter_append)
  show ?thesis
    using eq stab by simp
qed

text \<open>
  The claim as stated says the result is the sort of the whole concatenation. It is not:
  a remote segment with empty text is sorted and then dropped.
\<close>

theorem merge_channels_not_plain_sort:
  "merge_channels [] [Segment ''Them'' 0 1 []] \<noteq> sort_key start ([] @ [Segment ''Them'' 0 1 []])"
  by (simp add: merge_channels_eq has_text_def Segment_def strip_Nil)

section \<open>Properties of the word grouping\<close>

lemma split_at_pauses_hd:
  "ws \<noteq> [] \<Longrightarrow>
     split_at_pauses g ws \<noteq> [] \<and> hd (split_at_pauses g ws) \<noteq> []
     \<and> hd (hd (split_at_pauses g ws)) = hd ws"
  by (induction g ws rule: split_at_pauses.induct) (auto split: list.splits)

lemma split_at_pauses_Cons:
  "\<exists>grp grps. split_at_pauses g (w # ws) = (w # grp) # grps"
proof -
  from split_at_pauses_hd[of "w # ws" g]
  obtain a as where eq: "split_at_pauses g (w # ws) = a # as" and "a \<noteq> []" and "hd a = w"
    by (cases "split_at_pauses g (w # ws)") auto
  then obtain grp where "a = w # grp" by (cases a) auto
  with eq show ?thesis by blast
qed

lemma concat_split_at_pauses: "concat (split_at_pauses g ws) = ws"
proof (induction g ws rule: split_at_pauses.induct)
  case (3 g w v ws)
  obtain grp grps where eq: "split_at_pauses g (v # ws) = (v # grp) # grps"
    using split_at_pauses_Cons by blast
  with 3 show ?case by (cases "get_start v - get_end w > g") auto
qed simp_all

lemma split_at_pauses_nonempty_groups: "[] \<notin> set (split_at_pauses g ws)"
proof (induction g ws rule: split_at_pauses.induct)
  case (3 g w v ws)
  obtain grp grps where eq: "split_at_pauses g (v # ws) = (v # grp) # grps"
    using split_at_pauses_Cons by blast
  with 3 show ?case by (cases "get_start v - get_end w > g") auto
qed simp_all

lemma split_at_pauses_no_pause: "list_all (no_pause g) (split_at_pauses g ws)"
proof (induction g ws rule: split_at_pauses.induct)
  case (3 g w v ws)
  obtain grp grps where eq: "split_at_pauses g (v # ws) = (v # grp) # grps"
    using split_at_pauses_Cons by blast
  with 3 show ?case by auto
qed simp_all

lemma split_at_pauses_between: "pauses_between g (split_at_pauses g ws)"
proof (induction g ws rule: split_at_pauses.induct)
  case (3 g w v ws)
  obtain grp grps where eq: "split_at_pauses g (v # ws) = (v # grp) # grps"
    using split_at_pauses_Cons by blast
  show ?case
  proof (cases "get_start v - get_end w > g")
    case True
    with 3 eq show ?thesis by simp
  next
    case False
    with 3 eq show ?thesis by (cases grps) auto
  qed
qed simp_all

lemma group_loop_refines:
  "ws \<noteq> [] \<Longrightarrow>
   finish_group (group_loop g ws (segs, cur, cs)) (get_end (last ws)) =
     segs @ Segment [] cs (get_end (last (hd (split_at_pauses g ws))))
              (strip (join '' '' (cur @ map get_word (hd (split_at_pauses g ws)))))
          # map segment_of_words (tl (split_at_pauses g ws))"
proof (induction g ws "(segs, cur, cs)" arbitrary: segs cur cs rule: group_loop.induct)
  case (1 max_gap)
  then show ?case by simp
next
  case (2 max_gap w segments current_words current_start)
  show ?case by (simp add: finish_group_def)
next
  case (3 max_gap w nxt rest segments current_words current_start)
  obtain grp grps where eq: "split_at_pauses max_gap (nxt # rest) = (nxt # grp) # grps"
    using split_at_pauses_Cons by blast
  show ?case
  proof (cases "get_start nxt - get_end w > max_gap")
    case True
    with 3(1)[OF refl refl True] eq show ?thesis
      by (simp add: segment_of_words_def)
  next
    case False
    with 3(2)[OF refl refl False] eq show ?thesis
      by simp
  qed
qed

lemma group_words_refines:
  "ws \<noteq> [] \<Longrightarrow>
     group_words_into_segments ws g = map segment_of_words (split_at_pauses g ws)"
proof -
  assume ne: "ws \<noteq> []"
  then obtain w rest where ws: "ws = w # rest" by (cases ws) auto
  obtain grp grps where eq: "split_at_pauses g ws = (w # grp) # grps"
    unfolding ws using split_at_pauses_Cons by blast
  have "group_words_into_segments ws g
          = finish_group (group_loop g ws ([], [], get_start (hd ws))) (get_end (last ws))"
    using ne by (simp add: group_words_into_segments_def finish_group_def split: prod.splits)
  also have "\<dots> = map segment_of_words (split_at_pauses g ws)"
    using group_loop_refines[OF ne, of g "[]" "[]" "get_start (hd ws)"] eq ws
    by (simp add: segment_of_words_def)
  finally show ?thesis .
qed

text \<open>
  Claim C6, as amended. For a non-empty list of word timestamps the loop yields one
  segment per group of the split at the pauses longer than 1.5 s: the groups are
  non-empty and concatenate to the input (every word is in exactly one group, in order),
  no two neighbours inside a group are more than 1.5 s apart, and the last word of a group
  and the first word of the next always are. Each segment starts at its first word's start,
  ends at its last word's end, and its text is the space-joined words of the group with
  leading and trailing whitespace stripped.
\<close>

theorem group_words_splits_at_pauses:
  assumes "word_stamps \<noteq> []"
  shows "group_words_into_segments word_stamps 1.5
           = map segment_of_words (split_at_pauses 1.5 word_stamps)
       \<and> concat (split_at_pauses 1.5 word_stamps) = word_stamps
       \<and> [] \<notin> set (split_at_pauses 1.5 word_stamps)
       \<and> list_all (no_pause 1.5) (split_at_pauses 1.5 word_stamps)
       \<and> pauses_between 1.5 (split_at_pauses 1.5 word_stamps)
       \<and> (\<forall>grp. start (segment_of_words grp) = get_start (hd grp)
              \<and> seg_end (segment_of_words grp) = get_end (last grp)
              \<and> seg_text (segment_of_words grp) = strip (join '' '' (map get_word grp)))"
  using assms
  by (simp add: group_words_refines concat_split_at_pauses split_at_pauses_nonempty_groups
      split_at_pauses_no_pause split_at_pauses_between segment_of_words_def Segment_def)

theorem group_words_splits_at_pauses_witness:
  "[\<lparr>ws_word = Some ''good'', ws_start = Some 0, ws_end = Some 1\<rparr>,
    \<lparr>ws_word = Some ''day'', ws_start = Some 1, ws_end = Some 2\<rparr>,
    \<lparr>ws_word = Some ''bye'', ws_start = Some 4, ws_end = Some 5\<rparr>] \<noteq> []
   \<and> group_words_into_segments
        [\<lparr>ws_word = Some ''good'', ws_start = Some 0, ws_end = Some 1\<rparr>,
         \<lparr>ws_word = Some ''day'', ws_start = Some 1, ws_end = Some 2\<rparr>,
         \<lparr>ws_word = Some ''bye'', ws_start = Some 4, ws_end = Some 5\<rparr>] 1.5
       = [Segment [] 0 2 ''good day'', Segment [] 4 5 ''bye'']"
  using group_words_splits_at_pauses
    [of "[\<lparr>ws_word = Some ''good'', ws_start = Some 0, ws_end = Some 1\<rparr>,
          \<lparr>ws_word = Some ''day'', ws_start = Some 1, ws_end = Some 2\<rparr>,
          \<lparr>ws_word = Some ''bye'', ws_start = Some 4, ws_end = Some 5\<rparr>]"]
  by (simp add: segment_of_words_def get_word_def get_start_def get_end_def strip_def
      isspace_def)

text \<open>
  The claim as stated takes the text to be the space-joined words. A word timestamp
  without a \<open>word\<close> key counts as the empty word; joined in front of \<open>a\<close> it gives \<open>" a"\<close>,
  and the segment's text is the stripped \<open>"a"\<close>.
\<close>

theorem group_words_text_is_stripped:
  "map seg_text (group_words_into_segments
        [\<lparr>ws_word = None, ws_start = Some 0, ws_end = Some 1\<rparr>,
         \<lparr>ws_word = Some ''a'', ws_start = Some 1, ws_end = Some 2\<rparr>] 1.5) = [''a'']
   \<and> [''a''] \<noteq> [join '' '' (map get_word
        [\<lparr>ws_word = None, ws_start = Some 0, ws_end = Some 1\<rparr>,
         \<lparr>ws_word = Some ''a'', ws_start = Some 1, ws_end = Some 2\<rparr>])]"
  by (simp add: group_words_into_segments_def get_word_def get_start_def get_end_def
      strip_def isspace_def Segment_def)

section \<open>Properties of the echo suppression\<close>

lemma frame_gain_bounds:
  assumes "frame_gain thr m s = Some a"
  shows "1/20 \<le> a \<and> a \<le> 1"
proof -
  define r where "r = s / max m (1 / 1000000)"
  from assms have gated: "r > 0.3" and a: "a = max 0.05 (1.0 - min (r * 0.8) 0.95)"
    by (auto simp: frame_gain_def Let_def r_def split: if_splits)
  from gated have "0 \<le> min (r * 0.8) 0.95" by simp
  with a show ?thesis by simp
qed

lemma rms_zero: "\<forall>x \<in> set xs. x = 0 \<Longrightarrow> rms xs = 0"
proof -
  assume "\<forall>x \<in> set xs. x = 0"
  then have "sum_list (map (\<lambda>x. x\<^sup>2) xs) = 0" by (induction xs) auto
  then show ?thesis by (simp add: rms_def)
qed

lemma frame_rms_zero:
  assumes "\<forall>x \<in> set data. x = 0"
  shows "\<forall>r \<in> set (frame_rms fs n data). r = 0"
proof -
  have "rms (take fs (drop k data)) = 0" for k
    using assms by (intro rms_zero) (auto dest!: in_set_takeD in_set_dropD)
  then show ?thesis by (simp add: frame_rms_def)
qed

lemma fold_unchanged:
  "(\<And>x. x \<in> set xs \<Longrightarrow> f x st = st) \<Longrightarrow> fold f xs st = st"
  by (induction xs) auto

lemma remove_echo_samples_silent:
  assumes "\<forall>x \<in> set (first_channel sys). x = 0"
  shows "remove_echo_samples mic_sr mic sys =
           (if frame_size_of mic_sr = 0 then Inl ZeroDivisionError
            else Inr (take (min (length (first_channel mic)) (length (first_channel sys)))
                         (first_channel mic), 0))"
proof (cases "frame_size_of mic_sr = 0")
  case True
  then show ?thesis by (simp add: remove_echo_samples_def)
next
  case False
  define n where "n = min (length (first_channel mic)) (length (first_channel sys))"
  define fs where "fs = frame_size_of mic_sr"
  define sys_rms where "sys_rms = frame_rms fs (length (take n (first_channel mic)) div fs) (take n (first_channel sys))"
  define mic_rms where "mic_rms = frame_rms fs (length (take n (first_channel mic)) div fs) (take n (first_channel mic))"
  have z: "\<forall>r \<in> set sys_rms. r = 0"
    unfolding sys_rms_def using assms by (intro frame_rms_zero) (auto dest: in_set_takeD)
  then have thr: "sys_threshold_of sys_rms = 3 / 1000"
    by (auto simp: sys_threshold_of_def sys_median_of_def)
  have len: "length sys_rms = length (take n (first_channel mic)) div fs"
    by (simp add: sys_rms_def frame_rms_def)
  have step: "gate_frame fs (sys_threshold_of sys_rms) mic_rms sys_rms i st = st"
    if "i \<in> set [0..<length (take n (first_channel mic)) div fs]" for i st
  proof -
    from that len have "sys_rms ! i \<in> set sys_rms" by simp
    with z have "sys_rms ! i = 0" by blast
    then show ?thesis
      by (cases st) (simp add: gate_frame_def frame_gain_def thr)
  qed
  have "fold (gate_frame fs (sys_threshold_of sys_rms) mic_rms sys_rms)
          [0..<length (take n (first_channel mic)) div fs] (take n (first_channel mic), 0)
        = (take n (first_channel mic), 0)"
    by (rule fold_unchanged) (rule step)
  with False show ?thesis
    by (simp add: remove_echo_samples_def Let_def n_def fs_def sys_rms_def mic_rms_def)
qed

text \<open>
  Claim C3. Whatever the threshold and the two frame energies, the attenuation of a gated
  frame lies between 0.05 and 1.0; and when every sample of the remote channel is zero,
  no frame is gated (the count of suppressed frames is 0) and the cleaned signal is the
  microphone signal cut to the common length. The only other outcome is the division by
  a zero frame size, which produces no output at all.
\<close>

theorem remove_echo_attenuation_bounds:
  "(frame_gain sys_threshold mic_rms_i sys_rms_i = Some attenuation
      \<longrightarrow> 0.05 \<le> attenuation \<and> attenuation \<le> 1.0)
   \<and> ((\<forall>x \<in> set (first_channel sys). x = 0) \<longrightarrow>
        remove_echo_samples mic_sr mic sys =
          (if frame_size_of mic_sr = 0 then Inl ZeroDivisionError
           else Inr (take (min (length (first_channel mic)) (length (first_channel sys)))
                        (first_channel mic), 0)))"
  using frame_gain_bounds[of sys_threshold mic_rms_i sys_rms_i attenuation]
    remove_echo_samples_silent[of sys mic_sr mic]
  by simp

theorem remove_echo_attenuation_bounds_witness:
  "frame_gain 0.003 0.1 0.1 = Some 0.2 \<and> (0.05::real) \<le> 0.2 \<and> (0.2::real) \<le> 1.0
   \<and> remove_echo_samples 100 (Mono [0.5, - 0.5, 0.25, 1, 1]) (Mono [0, 0, 0, 0])
       = Inr ([0.5, - 0.5, 0.25, 1], 0)"
proof -
  have g: "frame_gain 0.003 0.1 0.1 = Some 0.2"
    by (simp add: frame_gain_def)
  have z: "\<forall>x \<in> set (first_channel (Mono [0, 0, 0, 0])). x = 0"
    by simp
  have fs: "frame_size_of 100 = 3"
    by (simp add: frame_size_of_def)
  from remove_echo_attenuation_bounds
    [of "0.003" "0.1" "0.1" "0.2" "Mono [0, 0, 0, 0]" 100 "Mono [0.5, - 0.5, 0.25, 1, 1]"] g z fs
  show ?thesis by simp
qed

section \<open>Properties of the channel transcription\<close>

lemma transcribe_channel_parakeet_raises:
  assumes "primary E = ''parakeet''" and "transcribe_parakeet E audio_path = Inl e"
  shows "transcribe_channel E w audio_path spk =
           (w\<lparr>calls := calls w @ [(Parakeet, audio_path), (Whisper, audio_path)]\<rparr>,
            case transcribe_whisper E audio_path of
              Inl e' \<Rightarrow> Inl e'
            | Inr segs \<Rightarrow> Inr (tag_speaker spk segs))"
  using assms
  by (simp add: transcribe_channel_def call_backend_def Let_def split: sum.splits)

lemma transcribe_channel_not_parakeet:
  assumes "primary E \<noteq> ''parakeet''"
  shows "transcribe_channel E w audio_path spk =
           (w\<lparr>calls := calls w @ [(Whisper, audio_path)]\<rparr>,
            case transcribe_whisper E audio_path of
              Inl e \<Rightarrow> Inl e
            | Inr segs \<Rightarrow> Inr (tag_speaker spk segs))"
  using assms
  by (simp add: transcribe_channel_def call_backend_def Let_def split: sum.splits)

lemma tag_speaker_speaker: "\<forall>s \<in> set (tag_speaker spk segs). speaker s = spk"
  by (simp add: tag_speaker_def)

text \<open>
  Claim C2. With \<open>parakeet\<close> configured and its transcription raising, the whisper
  backend is called next on the same path (the call log gains the Parakeet call and then
  the Whisper call, both on \<open>audio_path\<close>) and the result is whisper's: its segments,
  each with the given speaker and otherwise unchanged, or its exception. With \<open>whisper\<close>
  configured, whisper is the only call and its exception is the result.
\<close>

theorem transcribe_channel_fallback:
  "(primary E = ''parakeet'' \<and> transcribe_parakeet E audio_path = Inl e \<longrightarrow>
      fst (transcribe_channel E w audio_path spk)
        = w\<lparr>calls := calls w @ [(Parakeet, audio_path), (Whisper, audio_path)]\<rparr>
      \<and> (\<forall>segs. transcribe_whisper E audio_path = Inr segs \<longrightarrow>
            snd (transcribe_channel E w audio_path spk)
              = Inr (map (\<lambda>seg. seg\<lparr>speaker := spk\<rparr>) segs))
      \<and> (\<forall>e'. transcribe_whisper E audio_path = Inl e' \<longrightarrow>
            snd (transcribe_channel E w audio_path spk) = Inl e'))
   \<and> (primary E = ''whisper'' \<and> transcribe_whisper E audio_path = Inl e \<longrightarrow>
        transcribe_channel E w audio_path spk
          = (w\<lparr>calls := calls w @ [(Whisper, audio_path)]\<rparr>, Inl e))"
proof (intro conjI impI)
  assume a: "primary E = ''parakeet'' \<and> transcribe_parakeet E audio_path = Inl e"
  then have eq: "transcribe_channel E w audio_path spk =
           (w\<lparr>calls := calls w @ [(Parakeet, audio_path), (Whisper, audio_path)]\<rparr>,
            case transcribe_whisper E audio_path of
              Inl e' \<Rightarrow> Inl e'
            | Inr segs \<Rightarrow> Inr (tag_speaker spk segs))"
    by (intro transcribe_channel_parakeet_raises) auto
  show "fst (transcribe_channel E w audio_path spk)
        = w\<lparr>calls := calls w @ [(Parakeet, audio_path), (Whisper, audio_path)]\<rparr>"
    by (simp add: eq)
  show "\<forall>segs. transcribe_whisper E audio_path = Inr segs \<longrightarrow>
            snd (transcribe_channel E w audio_path spk)
              = Inr (map (\<lambda>seg. seg\<lparr>speaker := spk\<rparr>) segs)"
    by (simp add: eq tag_speaker_def)
  show "\<forall>e'. transcribe_whisper E audio_path = Inl e' \<longrightarrow>
            snd (transcribe_channel E w audio_path spk) = Inl e'"
    by (simp add: eq)
next
  assume a: "primary E = ''whisper'' \<and> transcribe_whisper E audio_path = Inl e"
  then have "primary E \<noteq> ''parakeet''" by auto
  from transcribe_channel_not_parakeet[OF this, of w audio_path spk] a
  show "transcribe_channel E w audio_path spk
          = (w\<lparr>calls := calls w @ [(Whisper, audio_path)]\<rparr>, Inl e)"
    by simp
qed

theorem transcribe_channel_fallback_witness:
  "primary (stub_env ''parakeet'' (\<lambda>p. Inl (OtherError ''no nemo''))
              (\<lambda>p. Inr [Segment [] 0 1 ''hi''])) = ''parakeet''
   \<and> transcribe_parakeet (stub_env ''parakeet'' (\<lambda>p. Inl (OtherError ''no nemo''))
              (\<lambda>p. Inr [Segment [] 0 1 ''hi''])) ''mic.wav'' = Inl (OtherError ''no nemo'')
   \<and> transcribe_whisper (stub_env ''parakeet'' (\<lambda>p. Inl (OtherError ''no nemo''))
              (\<lambda>p. Inr [Segment [] 0 1 ''hi''])) ''mic.wav'' = Inr [Segment [] 0 1 ''hi'']
   \<and> snd (transcribe_channel (stub_env ''parakeet'' (\<lambda>p. Inl (OtherError ''no nemo''))
              (\<lambda>p. Inr [Segment [] 0 1 ''hi''])) empty_world ''mic.wav'' ''Me'')
       = Inr [Segment ''Me'' 0 1 ''hi'']
   \<and> primary (stub_env ''whisper'' (\<lambda>p. Inr []) (\<lambda>p. Inl (OtherError ''bad audio'')))
       = ''whisper''
   \<and> transcribe_whisper (stub_env ''whisper'' (\<lambda>p. Inr []) (\<lambda>p. Inl (OtherError ''bad audio'')))
        ''mic.wav'' = Inl (OtherError ''bad audio'')
   \<and> snd (transcribe_channel (stub_env ''whisper'' (\<lambda>p. Inr [])
              (\<lambda>p. Inl (OtherError ''bad audio''))) empty_world ''mic.wav'' ''Me'')
       = Inl (OtherError ''bad audio'')"
proof -
  let ?E1 = "stub_env ''parakeet'' (\<lambda>p. Inl (OtherError ''no nemo''))
              (\<lambda>p. Inr [Segment [] 0 1 ''hi''])"
  let ?E2 = "stub_env ''whisper'' (\<lambda>p. Inr []) (\<lambda>p. Inl (OtherError ''bad audio''))"
  have p1: "primary ?E1 = ''parakeet''"
    and r1: "transcribe_parakeet ?E1 ''mic.wav'' = Inl (OtherError ''no nemo'')"
    and w1: "transcribe_whisper ?E1 ''mic.wav'' = Inr [Segment [] 0 1 ''hi'']"
    and p2: "primary ?E2 = ''whisper''"
    and w2: "transcribe_whisper ?E2 ''mic.wav'' = Inl (OtherError ''bad audio'')"
    by (simp_all add: stub_env_def)
  from transcribe_channel_fallback
    [of ?E1 "''mic.wav''" "OtherError ''no nemo''" empty_world "''Me''"] p1 r1 w1
  have a: "snd (transcribe_channel ?E1 empty_world ''mic.wav'' ''Me'')
             = Inr [Segment ''Me'' 0 1 ''hi'']"
    by (simp add: Segment_def)
  from transcribe_channel_fallback
    [of ?E2 "''mic.wav''" "OtherError ''bad audio''" empty_world "''Me''"] p2 w2
  have b: "snd (transcribe_channel ?E2 empty_world ''mic.wav'' ''Me'')
             = Inl (OtherError ''bad audio'')"
    by simp
  from p1 r1 w1 a p2 w2 b show ?thesis by blast
qed

text \<open>
  Claim C10. For every configured \<open>primary_model\<close> other than \<open>parakeet\<close>, recognised or
  not, whisper is called directly, once, and there is no fallback: the result is
  whisper's segments with the speaker set, or the exception whisper raised.
\<close>

theorem transcribe_channel_other_primary:
  assumes "primary E \<noteq> ''parakeet''"
  shows "fst (transcribe_channel E w audio_path spk)
           = w\<lparr>calls := calls w @ [(Whisper, audio_path)]\<rparr>
       \<and> snd (transcribe_channel E w audio_path spk)
           = (case transcribe_whisper E audio_path of
                Inl e \<Rightarrow> Inl e
              | Inr segs \<Rightarrow> Inr (map (\<lambda>seg. seg\<lparr>speaker := spk\<rparr>) segs))"
  by (simp add: transcribe_channel_not_parakeet[OF assms] tag_speaker_def split: sum.splits)

theorem transcribe_channel_other_primary_witness:
  "primary (stub_env ''canary'' (\<lambda>p. Inr []) (\<lambda>p. Inl (OtherError ''bad audio'')))
     \<noteq> ''parakeet''
   \<and> transcribe_channel (stub_env ''canary'' (\<lambda>p. Inr []) (\<lambda>p. Inl (OtherError ''bad audio'')))
        empty_world ''system.wav'' ''Them''
       = (\<lparr>files = Map.empty, calls = [(Whisper, ''system.wav'')]\<rparr>,
          Inl (OtherError ''bad audio''))"
proof -
  let ?E = "stub_env ''canary'' (\<lambda>p. Inr []) (\<lambda>p. Inl (OtherError ''bad audio''))"
  have p: "primary ?E \<noteq> ''parakeet''"
    and wh: "transcribe_whisper ?E ''system.wav'' = Inl (OtherError ''bad audio'')"
    by (simp_all add: stub_env_def)
  from transcribe_channel_other_primary[OF p, of empty_world "''system.wav''" "''Them''"] wh
  have "transcribe_channel ?E empty_world ''system.wav'' ''Them''
       = (\<lparr>files = Map.empty, calls = [(Whisper, ''system.wav'')]\<rparr>,
          Inl (OtherError ''bad audio''))"
    by (simp add: prod_eq_iff empty_world_def)
  with p show ?thesis by blast
qed

section \<open>Properties of the transcript assembly\<close>

lemma fold_append_map:
  "fold (\<lambda>x acc. acc @ [f x]) xs acc = acc @ map f xs"
  by (induction xs arbitrary: acc) auto

lemma build_result_fields:
  "segments (build_result p t merged) = merged"
  "full_text (build_result p t merged) = join [newline] (map format_line merged)"
  "num_segments (build_result p t merged) = length merged"
  "duration_seconds (build_result p t merged) = max_default (map seg_end merged) 0"
  "processing_time (build_result p t merged) = t"
  "model_used (build_result p t merged) = p"
  by (simp_all add: build_result_def fold_append_map)

lemma max_default_Max:
  "max_default xs d = (if xs = [] then d else Max (set xs))"
proof (cases xs)
  case Nil
  then show ?thesis by simp
next
  case (Cons x ys)
  have "fold max ys x = Max (set (x # ys))" by (simp only: Max.set_eq_fold)
  with Cons show ?thesis by simp
qed

lemma fold_max_ge: "(x::real) \<le> fold max xs x"
proof (induction xs arbitrary: x)
  case Nil
  then show ?case by simp
next
  case (Cons a xs)
  have "x \<le> max a x" by simp
  also have "\<dots> \<le> fold max xs (max a x)" by (rule Cons.IH)
  finally show ?case by simp
qed

lemma max_default_nonneg:
  assumes "\<forall>x \<in> set xs. 0 \<le> x"
  shows "0 \<le> max_default xs 0"
proof (cases xs)
  case Nil
  then show ?thesis by simp
next
  case (Cons x ys)
  with assms have "0 \<le> x" by simp
  also have "x \<le> fold max ys x" by (rule fold_max_ge)
  finally show ?thesis using Cons by simp
qed

lemma split_lines_not_Nil: "split_lines s \<noteq> []"
  by (induction s) (auto split: list.splits)

lemma split_lines_no_newline: "newline \<notin> set a \<Longrightarrow> split_lines a = [a]"
  by (induction a) auto

lemma split_lines_append:
  "newline \<notin> set a \<Longrightarrow> split_lines (a @ newline # b) = a # split_lines b"
  by (induction a) auto

lemma split_lines_join:
  "ls \<noteq> [] \<Longrightarrow> \<forall>l \<in> set ls. newline \<notin> set l \<Longrightarrow> split_lines (join [newline] ls) = ls"
proof (induction "[newline]" ls rule: join.induct)
  case 1
  then show ?case by simp
next
  case (2 x)
  then show ?case by (simp add: split_lines_no_newline)
next
  case (3 x y ys)
  then show ?case by (simp add: split_lines_append)
qed

lemma join_eq_Nil:
  "\<forall>l \<in> set ls. l \<noteq> [] \<Longrightarrow> join sep ls = [] \<longleftrightarrow> ls = []"
  by (induction sep ls rule: join.induct) auto

lemma text_lines_join:
  assumes "\<forall>l \<in> set ls. newline \<notin> set l \<and> l \<noteq> []"
  shows "text_lines (join [newline] ls) = ls"
proof (cases "ls = []")
  case True
  then show ?thesis by (simp add: text_lines_def)
next
  case False
  with assms have "join [newline] ls \<noteq> []" by (simp add: join_eq_Nil)
  with assms False show ?thesis by (simp add: text_lines_def split_lines_join)
qed

lemma digit_char_not_newline: "d < 10 \<Longrightarrow> digit_char d \<noteq> newline"
proof -
  assume "d < 10"
  then have "d \<in> {0, 1, 2, 3, 4, 5, 6, 7, 8, 9}" by auto
  then show ?thesis by (auto simp: digit_char_def newline_def)
qed

lemma decimal_no_newline: "newline \<notin> set (decimal n)"
proof (induction n rule: decimal.induct)
  case (1 n)
  show ?case
  proof (cases "n < 10")
    case True
    then show ?thesis
      using digit_char_not_newline[of n] by (subst decimal.simps) auto
  next
    case False
    with 1 show ?thesis
      using digit_char_not_newline[of "n mod 10"] by (subst decimal.simps) auto
  qed
qed

lemma format_1f_no_newline: "newline \<notin> set (format_1f x)"
  by (simp add: format_1f_def Let_def decimal_no_newline) (simp add: newline_def)

lemma format_line_no_newline:
  "newline \<notin> set (speaker s) \<Longrightarrow> newline \<notin> set (seg_text s)
     \<Longrightarrow> newline \<notin> set (format_line s)"
  by (simp add: format_line_def Let_def format_1f_no_newline) (simp add: newline_def)

lemma format_line_not_Nil: "format_line s \<noteq> []"
  by (simp add: format_line_def Let_def)

lemma has_text_nonempty: "has_text s \<Longrightarrow> seg_text s \<noteq> []"
  by (auto simp: has_text_def strip_Nil)

lemma transcribe_channel_speaker:
  "transcribe_channel E w p spk = (w', Inr segs) \<Longrightarrow> \<forall>s \<in> set segs. speaker s = spk"
  by (auto simp: transcribe_channel_def call_backend_def tag_speaker_def Let_def
      split: if_splits sum.splits)

lemma transcribe_meeting_result:
  assumes "transcribe_meeting E w mic_path sys_path = (w', Inr r)"
  shows "\<exists>mic_segments sys_segments.
           (\<forall>s \<in> set mic_segments. speaker s = ''Me'')
         \<and> (\<forall>s \<in> set sys_segments. speaker s = ''Them'')
         \<and> r = build_result (primary E) (elapsed E) (merge_channels mic_segments sys_segments)"
proof -
  obtain w1 clean where re: "(case remove_echo E w mic_path sys_path of
              (w, Inr p) \<Rightarrow> (w, p)
            | (w, Inl e) \<Rightarrow> (w, mic_path)) = (w1, clean)"
    by (cases "(case remove_echo E w mic_path sys_path of
              (w, Inr p) \<Rightarrow> (w, p)
            | (w, Inl e) \<Rightarrow> (w, mic_path))") auto
  obtain w2 r1 where t1: "transcribe_channel E w1 clean ''Me'' = (w2, r1)"
    by (cases "transcribe_channel E w1 clean ''Me''") auto
  from assms re t1 obtain mic_segments where r1: "r1 = Inr mic_segments"
    by (cases r1) (auto simp: transcribe_meeting_def)
  obtain w3 r2 where t2: "transcribe_channel E w2 sys_path ''Them'' = (w3, r2)"
    by (cases "transcribe_channel E w2 sys_path ''Them''") auto
  from assms re t1 r1 t2 obtain sys_segments where r2: "r2 = Inr sys_segments"
    by (cases r2) (auto simp: transcribe_meeting_def)
  from assms re t1 r1 t2 r2
  have "r = build_result (primary E) (elapsed E) (merge_channels mic_segments sys_segments)"
    by (auto simp: transcribe_meeting_def Let_def)
  moreover from t1 r1 have "\<forall>s \<in> set mic_segments. speaker s = ''Me''"
    by (auto dest: transcribe_channel_speaker)
  moreover from t2 r2 have "\<forall>s \<in> set sys_segments. speaker s = ''Them''"
    by (auto dest: transcribe_channel_speaker)
  ultimately show ?thesis by blast
qed

lemma transcribe_meeting_segments:
  assumes "transcribe_meeting E w mic_path sys_path = (w', Inr r)"
  shows "r = build_result (primary E) (elapsed E) (segments r)"
    and "\<forall>s \<in> set (segments r). has_text s \<and> (speaker s = ''Me'' \<or> speaker s = ''Them'')"
proof -
  from transcribe_meeting_result[OF assms] obtain a b where
    a: "\<forall>s \<in> set a. speaker s = ''Me''" and b: "\<forall>s \<in> set b. speaker s = ''Them''"
    and r: "r = build_result (primary E) (elapsed E) (merge_channels a b)"
    by blast
  from r have seg: "segments r = merge_channels a b" by (simp add: build_result_fields)
  with r show "r = build_result (primary E) (elapsed E) (segments r)" by simp
  from a b show "\<forall>s \<in> set (segments r). has_text s \<and> (speaker s = ''Me'' \<or> speaker s = ''Them'')"
    unfolding seg set_merge_channels by auto
qed

subsection \<open>The format of a line\<close>





lemma format_line_nonpositive:
  "start seg \<le> 0 \<Longrightarrow> format_line seg = ''**'' @ speaker seg @ ''** : '' @ seg_text seg"
  by (simp add: format_line_def)




subsection \<open>The invariant of the transcript\<close>

text \<open>
  Claim C7, as amended. For every transcript that \<open>transcribe_meeting\<close> returns, the one
  of an empty merged list included: \<open>num_segments\<close> is the length of \<open>segments\<close> and no
  segment has empty text; with the segments' \<open>end\<close> times non-negative, as the data model
  has them, \<open>duration_seconds\<close> is not negative; and whenever no segment's text contains a
  line feed, the number of lines of \<open>full_text\<close> equals \<open>num_segments\<close>.
\<close>

theorem transcript_invariant:
  assumes "transcribe_meeting E w mic_path sys_path = (w', Inr r)"
  shows "num_segments r = length (segments r)
       \<and> (\<forall>s \<in> set (segments r). seg_text s \<noteq> [])
       \<and> ((\<forall>s \<in> set (segments r). 0 \<le> seg_end s) \<longrightarrow> 0 \<le> duration_seconds r)
       \<and> ((\<forall>s \<in> set (segments r). newline \<notin> set (seg_text s))
            \<longrightarrow> length (text_lines (full_text r)) = num_segments r)"
proof (intro conjI impI)
  note r = transcribe_meeting_segments(1)[OF assms]
  note segs = transcribe_meeting_segments(2)[OF assms]
  show num: "num_segments r = length (segments r)"
    by (subst r) (simp add: build_result_fields)
  from segs show "\<forall>s \<in> set (segments r). seg_text s \<noteq> []"
    by (auto dest: has_text_nonempty)
  {
    assume ends: "\<forall>s \<in> set (segments r). 0 \<le> seg_end s"
    have "duration_seconds r = max_default (map seg_end (segments r)) 0"
      by (subst r) (simp add: build_result_fields)
    moreover have "0 \<le> max_default (map seg_end (segments r)) 0"
      using ends by (intro max_default_nonneg) auto
    ultimately show "0 \<le> duration_seconds r" by simp
  }
  {
    assume texts: "\<forall>s \<in> set (segments r). newline \<notin> set (seg_text s)"
    have "newline \<notin> set (speaker s)" if "s \<in> set (segments r)" for s
      using segs that by (auto simp: newline_def)
    with texts have "\<forall>l \<in> set (map format_line (segments r)). newline \<notin> set l \<and> l \<noteq> []"
      by (auto simp: format_line_no_newline format_line_not_Nil)
    then have "text_lines (full_text (build_result (primary E) (elapsed E) (segments r)))
          = map format_line (segments r)"
      unfolding build_result_fields by (rule text_lines_join)
    with r have "text_lines (full_text r) = map format_line (segments r)" by simp
    with num show "length (text_lines (full_text r)) = num_segments r" by simp
  }
qed

theorem transcript_invariant_witness:
  "transcribe_meeting
      (stub_env ''whisper'' (\<lambda>p. Inr [])
         (\<lambda>p. if p = ''mic.wav'' then Inr [Segment [] 0 2 ''hello'']
               else Inr [Segment [] 1 3 ''hi there'']))
      empty_world ''mic.wav'' ''system.wav''
     = (\<lparr>files = Map.empty, calls = [(Whisper, ''mic.wav''), (Whisper, ''system.wav'')]\<rparr>,
        Inr (build_result ''whisper'' 1
               [Segment ''Me'' 0 2 ''hello'', Segment ''Them'' 1 3 ''hi there'']))
   \<and> length (text_lines (full_text (build_result ''whisper'' 1
               [Segment ''Me'' 0 2 ''hello'', Segment ''Them'' 1 3 ''hi there'']))) = 2
   \<and> num_segments (build_result ''whisper'' 1
               [Segment ''Me'' 0 2 ''hello'', Segment ''Them'' 1 3 ''hi there'']) = 2
   \<and> 0 \<le> duration_seconds (build_result ''whisper'' 1
               [Segment ''Me'' 0 2 ''hello'', Segment ''Them'' 1 3 ''hi there''])"
proof -
  let ?E = "stub_env ''whisper'' (\<lambda>p. Inr [])
         (\<lambda>p. if p = ''mic.wav'' then Inr [Segment [] 0 2 ''hello'']
               else Inr [Segment [] 1 3 ''hi there''])"
  let ?r = "build_result ''whisper'' 1
               [Segment ''Me'' 0 2 ''hello'', Segment ''Them'' 1 3 ''hi there'']"
  have run: "transcribe_meeting ?E empty_world ''mic.wav'' ''system.wav''
     = (\<lparr>files = Map.empty, calls = [(Whisper, ''mic.wav''), (Whisper, ''system.wav'')]\<rparr>,
        Inr ?r)"
    by (simp add: transcribe_meeting_def remove_echo_def empty_world_def stub_env_def
        transcribe_channel_def call_backend_def tag_speaker_def merge_channels_eq
        has_text_def strip_def isspace_def Segment_def)
  have segs: "segments ?r = [Segment ''Me'' 0 2 ''hello'', Segment ''Them'' 1 3 ''hi there'']"
    by (simp add: build_result_fields)
  have ends: "\<forall>s \<in> set (segments ?r). 0 \<le> seg_end s"
    unfolding segs by (simp add: Segment_def)
  have texts: "\<forall>s \<in> set (segments ?r). newline \<notin> set (seg_text s)"
    unfolding segs by (simp add: Segment_def newline_def)
  from transcript_invariant[OF run] ends texts segs run show ?thesis by simp
qed

text \<open>
  The claim as stated covers every merged list. A segment from 0 to 1 s whose text holds
  a line feed passes the merge; its transcript has two lines of \<open>full_text\<close> for one
  segment.
\<close>

theorem transcript_invariant_fails:
  "map_sum id (\<lambda>r. (length (text_lines (full_text r)), num_segments r, length (segments r)))
     (snd (transcribe_meeting
        (stub_env ''whisper'' (\<lambda>p. Inr [])
           (\<lambda>p. if p = ''mic.wav''
                 then Inr [Segment [] 0 1 [CHR ''a'', CHR 0x0A, CHR ''b'']]
                 else Inr []))
        empty_world ''mic.wav'' ''system.wav''))
   = Inr (2, 1, 1)"
  by (simp add: transcribe_meeting_def remove_echo_def empty_world_def stub_env_def
      transcribe_channel_def call_backend_def tag_speaker_def merge_channels_eq
      has_text_def strip_def isspace_def Segment_def build_result_def format_line_def
      text_lines_def newline_def)

section \<open>Properties of the pipeline's temporary file\<close>

lemma transcribe_channel_files:
  "files (fst (transcribe_channel E w p spk)) = files w"
  by (simp add: transcribe_channel_def call_backend_def Let_def split: sum.splits)

text \<open>
  When echo suppression produced a file and both channels are transcribed, the file is
  unlinked, and a failing unlink changes nothing else: a transcript is returned all the
  same.
\<close>

lemma transcribe_meeting_cleanup_on_success:
  assumes "remove_echo E w mic_path sys_path = (w1, Inr clean)"
    and "clean \<noteq> mic_path"
    and "transcribe_channel E w1 clean ''Me'' = (w2, Inr mic_segments)"
    and "transcribe_channel E w2 sys_path ''Them'' = (w3, Inr sys_segments)"
  shows "snd (transcribe_meeting E w mic_path sys_path)
           = Inr (build_result (primary E) (elapsed E) (merge_channels mic_segments sys_segments))"
    and "\<not> unlink_fails E clean \<Longrightarrow> files (fst (transcribe_meeting E w mic_path sys_path)) clean = None"
    and "unlink_fails E clean \<Longrightarrow> fst (transcribe_meeting E w mic_path sys_path) = w3"
  using assms by (simp_all add: transcribe_meeting_def unlink_def Let_def)

text \<open>
  Claim C8 at a failing input. Both audio files exist, the remote channel is silent,
  echo suppression writes \<open>mic.wav_clean.wav\<close>, and whisper (the configured backend)
  raises on it. The exception leaves \<open>transcribe_meeting\<close> before the \<open>unlink\<close>: the
  temporary file is still on disk when the caller gets the error.
\<close>

theorem transcribe_meeting_leaves_temp_file:
  "transcribe_meeting whisper_down_env silent_world ''mic.wav'' ''system.wav''
     = (\<lparr>files = [''mic.wav'' \<mapsto> Wav 100 (Mono [1, - 1, 1]),
                  ''system.wav'' \<mapsto> Wav 100 (Mono [0, 0, 0]),
                  ''mic.wav_clean.wav'' \<mapsto> Wav 100 (Mono [1, - 1, 1])],
         calls = [(Whisper, ''mic.wav_clean.wav'')]\<rparr>,
        Inl (OtherError ''out of memory''))"
proof -
  have fs: "frame_size_of 100 = 3" by (simp add: frame_size_of_def)
  have dsp: "remove_echo_samples 100 (Mono [1, - 1, 1]) (Mono [0, 0, 0])
               = Inr ([1, - 1, 1], 0)"
    using remove_echo_samples_silent[of "Mono [0, 0, 0]" 100 "Mono [1, - 1, 1]"] fs
    by simp
  have re: "remove_echo whisper_down_env silent_world ''mic.wav'' ''system.wav''
      = (\<lparr>files = [''mic.wav'' \<mapsto> Wav 100 (Mono [1, - 1, 1]),
                  ''system.wav'' \<mapsto> Wav 100 (Mono [0, 0, 0]),
                  ''mic.wav_clean.wav'' \<mapsto> Wav 100 (Mono [1, - 1, 1])],
         calls = []\<rparr>, Inr ''mic.wav_clean.wav'')"
    by (simp add: remove_echo_def silent_world_def whisper_down_env_def stub_env_def dsp
        write_file_def Let_def)
  show ?thesis
    by (simp add: transcribe_meeting_def re transcribe_channel_def call_backend_def)
      (simp add: whisper_down_env_def stub_env_def)
qed

section \<open>Properties of saving\<close>

text \<open>
  Claim C5, as amended. \<open>save_transcript\<close> writes the JSON file and then the markdown
  file, each by a plain overwrite, with nothing pairing the two. If both writes succeed,
  both files hold the new forms. If the JSON file cannot be opened, nothing on disk
  changes; if its write fails later, it is left half-written and the markdown file is not
  touched. If the JSON write succeeds and the markdown file cannot be opened, the JSON file
  stays overwritten and the markdown file keeps what it held; if the markdown write fails
  later, the markdown file is left half-written beside the new JSON file. In every failing
  case the error is the result.
\<close>

theorem save_transcript_outcomes:
  "(write_outcome_at E (with_suffix E output_path ''.json'') = WriteOk
      \<and> write_outcome_at E (with_suffix E output_path ''.md'') = WriteOk \<longrightarrow>
      save_transcript E w result output_path
        = (w\<lparr>files := (files w)
               (with_suffix E output_path ''.json'' \<mapsto> Text (json_dump E result),
                with_suffix E output_path ''.md'' \<mapsto> Text (markdown_of result))\<rparr>, Inr ()))
   \<and> (write_outcome_at E (with_suffix E output_path ''.json'') = OpenFails \<longrightarrow>
      save_transcript E w result output_path = (w, Inl OSError))
   \<and> (write_outcome_at E (with_suffix E output_path ''.json'') = WriteFails \<longrightarrow>
      save_transcript E w result output_path
        = (w\<lparr>files := (files w)(with_suffix E output_path ''.json'' \<mapsto> Partial)\<rparr>,
           Inl OSError))
   \<and> (write_outcome_at E (with_suffix E output_path ''.json'') = WriteOk
      \<and> write_outcome_at E (with_suffix E output_path ''.md'') = OpenFails \<longrightarrow>
      save_transcript E w result output_path
        = (w\<lparr>files := (files w)
               (with_suffix E output_path ''.json'' \<mapsto> Text (json_dump E result))\<rparr>,
           Inl OSError))
   \<and> (write_outcome_at E (with_suffix E output_path ''.json'') = WriteOk
      \<and> write_outcome_at E (with_suffix E output_path ''.md'') = WriteFails \<longrightarrow>
      save_transcript E w result output_path
        = (w\<lparr>files := (files w)
               (with_suffix E output_path ''.json'' \<mapsto> Text (json_dump E result),
                with_suffix E output_path ''.md'' \<mapsto> Partial)\<rparr>,
           Inl OSError))"
  by (simp add: save_transcript_def write_file_def Let_def)

theorem save_transcript_outcomes_witness:
  "save_transcript (stub_env ''whisper'' (\<lambda>p. Inr []) (\<lambda>p. Inr [])) saved_world
      (build_result ''whisper'' 1 [Segment ''Me'' 0 2 ''hello'']) ''transcript''
     = (\<lparr>files = [''transcript.json'' \<mapsto> Text ''**Me** : hello'',
                  ''transcript.md'' \<mapsto> Text (markdown_of
                      (build_result ''whisper'' 1 [Segment ''Me'' 0 2 ''hello'']))],
         calls = []\<rparr>, Inr ())"
proof -
  let ?E = "stub_env ''whisper'' (\<lambda>p. Inr []) (\<lambda>p. Inr [])"
  have j: "write_outcome_at ?E (with_suffix ?E ''transcript'' ''.json'') = WriteOk"
    and m: "write_outcome_at ?E (with_suffix ?E ''transcript'' ''.md'') = WriteOk"
    by (simp_all add: stub_env_def)
  have ft: "full_text (build_result ''whisper'' 1 [Segment ''Me'' 0 2 ''hello''])
              = ''**Me** : hello''"
    by (simp add: build_result_def format_line_def Segment_def)
  from save_transcript_outcomes
    [of ?E "''transcript''" saved_world
        "build_result ''whisper'' 1 [Segment ''Me'' 0 2 ''hello'']"] j m
  have "save_transcript ?E saved_world
          (build_result ''whisper'' 1 [Segment ''Me'' 0 2 ''hello'']) ''transcript''
      = (saved_world\<lparr>files := (files saved_world)
               (with_suffix ?E ''transcript'' ''.json'' \<mapsto> Text (json_dump ?E
                   (build_result ''whisper'' 1 [Segment ''Me'' 0 2 ''hello''])),
                with_suffix ?E ''transcript'' ''.md'' \<mapsto> Text (markdown_of
                   (build_result ''whisper'' 1 [Segment ''Me'' 0 2 ''hello''])))\<rparr>, Inr ())"
    by blast
  then show ?thesis
    by (simp add: stub_env_def saved_world_def ft)
qed

text \<open>
  The claim as stated promises that the two files are overwritten together or not at
  all. With both old files on disk and a markdown file that cannot be opened for
  writing, the JSON file is overwritten, the markdown file still holds the old text, and
  the caller gets the error.
\<close>

theorem save_transcript_not_atomic:
  "files saved_world ''transcript.json'' = Some (Text ''old json'')
   \<and> files saved_world ''transcript.md'' = Some (Text ''old markdown'')
   \<and> snd (save_transcript md_locked_env saved_world
          (build_result ''whisper'' 1 [Segment ''Me'' 0 2 ''hello'']) ''transcript'')
       = Inl OSError
   \<and> files (fst (save_transcript md_locked_env saved_world
          (build_result ''whisper'' 1 [Segment ''Me'' 0 2 ''hello'']) ''transcript''))
        ''transcript.json'' = Some (Text ''**Me** : hello'')
   \<and> files (fst (save_transcript md_locked_env saved_world
          (build_result ''whisper'' 1 [Segment ''Me'' 0 2 ''hello'']) ''transcript''))
        ''transcript.md'' = Some (Text ''old markdown'')"
proof -
  have ft: "full_text (build_result ''whisper'' 1 [Segment ''Me'' 0 2 ''hello''])
              = ''**Me** : hello''"
    by (simp add: build_result_def format_line_def Segment_def)
  show ?thesis
    by (simp add: save_transcript_def write_file_def md_locked_env_def stub_env_def
        saved_world_def ft)
qed

end
